theory Spec2Isabelle
  imports Complex_Main "HOL-Library.Sublist"
begin

section \<open>ChicoX front end: the project-inference engine and the workflow controller\<close>

text \<open>
  A shallow embedding of \<^verbatim>\<open>src/frontend/script.js\<close> (class \<^verbatim>\<open>ChicoXApp\<close>).

  Conventions of the model.
  \<^item> A JavaScript string is an Isabelle \<open>string\<close>. The model covers ASCII text:
    \<^verbatim>\<open>toUpperCase\<close> and \<^verbatim>\<open>toLowerCase\<close> map the letters a-z and A-Z and leave every other
    character alone, and the class \<^verbatim>\<open>\s\<close> is space, tab, line feed, vertical tab, form feed and
    carriage return. Unicode case mapping and Unicode white space are outside the model.
  \<^item> A JavaScript number is a rational: \<^verbatim>\<open>parseFloat\<close> and the product with \<^verbatim>\<open>1000000\<close> are
    exact here, while the program rounds each to an IEEE double. Rounding is monotone, so the
    element the program picks after sorting is the rounded image of the one picked here.
  \<^item> An \<^verbatim>\<open>async\<close> handler runs as one atomic step; what the environment answers (the file
    reader, the HTTP gateway) is a parameter of the step.
\<close>

subsection \<open>Strings\<close>

definition toUpperChar :: "char \<Rightarrow> char" where
  "toUpperChar c =
     (case map_of (zip ''abcdefghijklmnopqrstuvwxyz'' ''ABCDEFGHIJKLMNOPQRSTUVWXYZ'') c of
        Some u \<Rightarrow> u | None \<Rightarrow> c)"

definition toLowerChar :: "char \<Rightarrow> char" where
  "toLowerChar c =
     (case map_of (zip ''ABCDEFGHIJKLMNOPQRSTUVWXYZ'' ''abcdefghijklmnopqrstuvwxyz'') c of
        Some l \<Rightarrow> l | None \<Rightarrow> c)"

definition toUpperCase :: "string \<Rightarrow> string" where
  "toUpperCase s = map toUpperChar s"

definition toLowerCase :: "string \<Rightarrow> string" where
  "toLowerCase s = map toLowerChar s"

text \<open>\<^verbatim>\<open>s.includes(sub)\<close>: does \<open>sub\<close> occur in \<open>s\<close> as a contiguous piece.\<close>

fun str_includes :: "string \<Rightarrow> string \<Rightarrow> bool" where
  "str_includes [] sub = (sub = [])"
| "str_includes (c # cs) sub = (prefix sub (c # cs) \<or> str_includes cs sub)"

definition isDigit :: "char \<Rightarrow> bool" where
  "isDigit c = (c \<in> set ''0123456789'')"

definition isSpace :: "char \<Rightarrow> bool" where
  "isSpace c = (c \<in> set [CHR '' '', CHR 0x09, CHR 0x0A, CHR 0x0B, CHR 0x0C, CHR 0x0D])"

text \<open>\<^verbatim>\<open>s.trim()\<close>: white space removed at both ends.\<close>

definition trim :: "string \<Rightarrow> string" where
  "trim s = rev (dropWhile isSpace (rev (dropWhile isSpace s)))"

text \<open>\<^verbatim>\<open>xs.join(sep)\<close>.\<close>

fun join :: "string \<Rightarrow> string list \<Rightarrow> string" where
  "join sep [] = []"
| "join sep [x] = x"
| "join sep (x # y # ys) = x @ sep @ join sep (y # ys)"

text \<open>
  \<^verbatim>\<open>s.split(/[\s,&]+/)\<close>: the pieces between maximal runs of separators. As in JavaScript, a
  string that begins (ends) with a separator yields an empty first (last) piece, and the empty
  string yields one empty piece. The flag says that the previous character was a separator.
\<close>

definition isWordSep :: "char \<Rightarrow> bool" where
  "isWordSep c = (isSpace c \<or> c = CHR '','' \<or> c = CHR ''&'')"

fun split_go :: "bool \<Rightarrow> string \<Rightarrow> string \<Rightarrow> string list" where
  "split_go insep cur [] = [cur]"
| "split_go insep cur (c # cs) =
     (if isWordSep c then (if insep then split_go True cur cs else cur # split_go True [] cs)
      else split_go False (cur @ [c]) cs)"

definition split_words :: "string \<Rightarrow> string list" where
  "split_words s = split_go False [] s"

text \<open>\<^verbatim>\<open>s.split(',')\<close>: the pieces between commas.\<close>

fun split_comma_go :: "string \<Rightarrow> string \<Rightarrow> string list" where
  "split_comma_go cur [] = [cur]"
| "split_comma_go cur (c # cs) =
     (if c = CHR '','' then cur # split_comma_go [] cs else split_comma_go (cur @ [c]) cs)"

definition split_comma :: "string \<Rightarrow> string list" where
  "split_comma s = split_comma_go [] s"

subsection \<open>The budget pattern \<^verbatim>\<open>/\$([0-9]+(?:\.[0-9]+)?)\s*Million/gi\<close>\<close>

text \<open>The optional group \<^verbatim>\<open>(?:\.[0-9]+)?\<close> at the head of a string: what it takes, and the rest.\<close>

definition match_fraction :: "string \<Rightarrow> string \<times> string" where
  "match_fraction s =
     (case s of
        [] \<Rightarrow> ([], s)
      | c # r \<Rightarrow>
          if c = CHR ''.'' \<and> takeWhile isDigit r \<noteq> []
          then (c # takeWhile isDigit r, dropWhile isDigit r)
          else ([], s))"

text \<open>
  One attempt of the pattern at the head of a string: the matched text and what follows it.
  Every quantifier takes as much as it can; \<open>match_budget_at_complete\<close> below shows that
  this loses no match, so the backtracking of the engine never comes into play.
\<close>

definition match_budget_at :: "string \<Rightarrow> (string \<times> string) option" where
  "match_budget_at s =
     (case s of
        [] \<Rightarrow> None
      | c # r \<Rightarrow>
          if c \<noteq> CHR ''$'' then None
          else
            let ds = takeWhile isDigit r; r1 = dropWhile isDigit r in
            if ds = [] then None
            else
              let (fr, r2) = match_fraction r1;
                  ws = takeWhile isSpace r2; r3 = dropWhile isSpace r2 in
              if toUpperCase (take 7 r3) = ''MILLION''
              then Some (c # ds @ fr @ ws @ take 7 r3, drop 7 r3)
              else None)"

text \<open>
  \<^verbatim>\<open>content.match(/.../gi)\<close>: the matches from left to right, the search resuming after each
  match. The empty list stands for both \<^verbatim>\<open>null\<close> and an empty array, which the caller
  treats alike.
\<close>

function match_all :: "string \<Rightarrow> string list" where
  "match_all [] = []"
| "match_all (c # cs) =
     (case match_budget_at (c # cs) of
        None \<Rightarrow> match_all cs
      | Some (m, rest) \<Rightarrow> m # match_all rest)"
  by pat_completeness auto
termination
proof (relation "measure length")
  show "wf (measure length)" by simp
next
  fix c :: char and cs :: string
  show "(cs, c # cs) \<in> measure length" by simp
next
  fix c :: char and cs x2 m rest
  assume a: "match_budget_at (c # cs) = Some x2" and b: "(m, rest) = x2"
  obtain fr r2 where f: "match_fraction (dropWhile isDigit cs) = (fr, r2)"
    by (cases "match_fraction (dropWhile isDigit cs)")
  have "length (snd (match_fraction s)) \<le> length s" for s
    by (cases s) (simp_all add: match_fraction_def length_dropWhile_le le_SucI)
  from this [of "dropWhile isDigit cs"] have "length r2 \<le> length (dropWhile isDigit cs)"
    by (simp add: f)
  moreover have "length (dropWhile isDigit cs) \<le> length cs"
    by (rule length_dropWhile_le)
  moreover have "length (dropWhile isSpace r2) \<le> length r2"
    by (rule length_dropWhile_le)
  moreover have "rest = drop 7 (dropWhile isSpace r2)"
    using a b f by (auto simp: match_budget_at_def Let_def split: if_splits)
  ultimately show "(rest, c # cs) \<in> measure length"
    by simp
qed

text \<open>\<^verbatim>\<open>match.replace(/\$|Million/gi, '')\<close>: every dollar sign and every "Million" removed.\<close>

fun strip_budget_words :: "string \<Rightarrow> string" where
  "strip_budget_words [] = []"
| "strip_budget_words (c # cs) =
     (if c = CHR ''$'' then strip_budget_words cs
      else if toUpperCase (take 7 (c # cs)) = ''MILLION'' then strip_budget_words (drop 6 cs)
      else c # strip_budget_words cs)"

definition digit_val :: "char \<Rightarrow> nat" where
  "digit_val c =
     (case map_of (zip ''0123456789'' [0, 1, 2, 3, 4, 5, 6, 7, 8, 9]) c of
        Some d \<Rightarrow> d | None \<Rightarrow> 0)"

definition digits_val :: "string \<Rightarrow> nat" where
  "digits_val ds = foldl (\<lambda>a c. 10 * a + digit_val c) 0 ds"

text \<open>
  \<^verbatim>\<open>parseFloat\<close> on an unsigned decimal numeral without exponent: leading white space is
  skipped, then the longest prefix \<open>digits [. digits]\<close> is read. A string whose prefix is no
  numeral gives \<^verbatim>\<open>NaN\<close> in JavaScript and 0 here; no match of the budget pattern leads
  there, since what is left of a match starts with its digits.
\<close>

definition parseFloat :: "string \<Rightarrow> rat" where
  "parseFloat s =
     (let t = dropWhile isSpace s;
          ip = takeWhile isDigit t;
          r = dropWhile isDigit t;
          fp = (case r of [] \<Rightarrow> [] | c # r' \<Rightarrow> if c = CHR ''.'' then takeWhile isDigit r' else [])
      in of_nat (digits_val ip) + of_nat (digits_val fp) / 10 ^ length fp)"

subsection \<open>The analysis result and \<^verbatim>\<open>extractProjectInfo\<close>\<close>

text \<open>The JSON object of an analysis; a field that is missing is \<open>None\<close>.\<close>

record analysis =
  company_name :: "string option"
  industry :: "string option"
  employees :: "string option"
  revenue :: "string option"
  capabilities :: "string list option"
  bonding_capacity :: "string option"
  credit_rating :: "string option"
  insurance :: "string option"
  certifications :: "string list option"

text \<open>
  The object \<^verbatim>\<open>extractProjectInfo\<close> returns. The budget is the string \<^verbatim>\<open>''\<close> (here
  \<open>None\<close>) or \<^verbatim>\<open>median.toString()\<close> (here \<open>Some median\<close>); the text of a number is never empty.
\<close>

record project_info =
  pi_description :: string
  pi_type :: string
  pi_budget :: "rat option"
  pi_keywords :: "string list"

definition classify :: "string \<Rightarrow> string" where
  "classify upperContent =
     (if str_includes upperContent ''SMART CITY'' \<or> str_includes upperContent ''IOT''
         \<or> str_includes upperContent ''TRAFFIC'' then ''smart-city''
      else if str_includes upperContent ''ENVIRONMENTAL'' \<or> str_includes upperContent ''MONITORING''
         \<or> str_includes upperContent ''WATER'' then ''environmental''
      else if str_includes upperContent ''ENERGY'' \<or> str_includes upperContent ''MANAGEMENT''
        then ''energy''
      else ''general'')"

definition estimate_budget :: "string \<Rightarrow> rat option" where
  "estimate_budget content =
     (let budgetMatches = match_all content in
      if budgetMatches \<noteq> [] \<and> length budgetMatches > 0 then
        let budgets = sort (map (\<lambda>m. parseFloat (strip_budget_words m) * 1000000) budgetMatches)
        in Some (budgets ! (length budgets div 2))
      else None)"

definition describe :: "string \<Rightarrow> string list \<Rightarrow> string" where
  "describe projectType caps =
     (let primaryCapabilities = take 3 caps;
          listed = toLowerCase (join '', '' primaryCapabilities) in
      if projectType = ''smart-city'' then
        ''Develop a comprehensive smart city solution incorporating '' @ listed @
        ''. The project should leverage IoT sensors, real-time data analytics, and cloud-based platforms to improve city operations and citizen services.''
      else if projectType = ''environmental'' then
        ''Implement an environmental monitoring system utilizing '' @ listed @
        ''. The solution should provide real-time environmental data collection, analysis, and reporting capabilities.''
      else if projectType = ''energy'' then
        ''Deploy an energy management platform incorporating '' @ listed @
        ''. The system should optimize energy consumption and provide comprehensive monitoring and reporting.''
      else
        ''Develop a technology solution leveraging '' @ listed @
        ''. The project should address municipal needs through innovative technology implementation.'')"

definition add_cap_word :: "string list \<Rightarrow> string \<Rightarrow> string list" where
  "add_cap_word keywords word =
     (if length word > 3 \<and> word \<notin> set keywords then keywords @ [word] else keywords)"

definition add_capability :: "string list \<Rightarrow> string \<Rightarrow> string list" where
  "add_capability keywords cap = foldl add_cap_word keywords (split_words (toLowerCase cap))"

definition techKeywords :: "string list" where
  "techKeywords = [''iot'', ''sensors'', ''monitoring'', ''smart'', ''cloud'', ''analytics'',
     ''mobile'', ''api'', ''data'', ''security'', ''integration'']"

definition add_tech_keyword :: "string \<Rightarrow> string list \<Rightarrow> string \<Rightarrow> string list" where
  "add_tech_keyword upperContent keywords keyword =
     (if str_includes upperContent (toUpperCase keyword) \<and> keyword \<notin> set keywords
      then keywords @ [keyword] else keywords)"

definition all_keywords :: "string \<Rightarrow> string list \<Rightarrow> string list" where
  "all_keywords upperContent caps =
     foldl (add_tech_keyword upperContent) (foldl add_capability [] caps) techKeywords"

definition extractProjectInfo :: "string \<Rightarrow> analysis \<Rightarrow> project_info" where
  "extractProjectInfo content a =
     (let upperContent = toUpperCase content;
          caps = (case capabilities a of Some cs \<Rightarrow> cs | None \<Rightarrow> []);
          projectType = classify upperContent
      in \<lparr> pi_description = describe projectType caps,
           pi_type = projectType,
           pi_budget = estimate_budget content,
           pi_keywords = take 8 (all_keywords upperContent caps) \<rparr>)"

subsection \<open>The session state\<close>

datatype page_section = Upload | Analyze | Generate | Results

record uploaded_file =
  file_name :: string
  file_size :: nat

record rfp =
  title :: "string option"
  quality_score :: "string option"
  content :: "string option"

datatype notification_type = Info | Success | Error | Warning

text \<open>
  What the environment answers to an asynchronous call: the awaited value, or a failure. In
  the handlers a rejected \<^verbatim>\<open>fetch\<close> (no network, timeout of the transport), a response
  whose \<^verbatim>\<open>ok\<close> flag is false (status outside 200-299) and a body that is no JSON all end in
  the same \<^verbatim>\<open>catch\<close>.
\<close>

datatype failure = NetworkError | Timeout | NonOkStatus nat | MalformedBody

datatype 'a outcome = Failed failure | Returned 'a

text \<open>The body of a request sent to the gateway.\<close>

datatype request =
    AnalyzeRequest string string
  | GenerateRequest string string "rat option" "string list" "analysis option"
  | RegenerateRequest "rfp option" string

text \<open>
  The fields of \<^verbatim>\<open>ChicoXApp\<close>, then the parts of the page the handlers read and write: the
  form fields, the two buttons that are switched on and off, the panels that are shown and
  hidden; then what leaves the application: the notifications shown to the user, the lines
  written with \<^verbatim>\<open>console.error\<close>, the requests sent. The page elements are assumed to
  exist. The budget field holds \<^verbatim>\<open>''\<close> (\<open>None\<close>) or the text of a number.
\<close>

record app =
  currentSection :: page_section
  uploadedFile :: "uploaded_file option"
  analysisData :: "analysis option"
  rfpData :: "rfp option"
  fileInput :: string
  projectDescription :: string
  projectType :: string
  estimatedBudget :: "rat option"
  keywordsField :: string
  feedbackText :: string
  analyzeBtnDisabled :: bool
  generateRfpBtnDisabled :: bool
  uploadAreaShown :: bool
  uploadedFileShown :: bool
  loadingAnalysisShown :: bool
  analysisResultsShown :: bool
  loadingGenerationShown :: bool
  rfpPreviewShown :: bool
  feedbackSectionShown :: bool
  notifications :: "(string \<times> notification_type) list"
  consoleErrors :: "string list"
  requests :: "request list"

subsection \<open>The handlers\<close>

definition showNotification :: "string \<Rightarrow> notification_type \<Rightarrow> app \<Rightarrow> app" where
  "showNotification message t s = s\<lparr>notifications := notifications s @ [(message, t)]\<rparr>"

definition navigateToSection :: "page_section \<Rightarrow> app \<Rightarrow> app" where
  "navigateToSection sec s = s\<lparr>currentSection := sec\<rparr>"

definition displayUploadedFile :: "app \<Rightarrow> app" where
  "displayUploadedFile s = s\<lparr>uploadAreaShown := False, uploadedFileShown := True\<rparr>"

text \<open>\<^verbatim>\<open>'.' + file.name.split('.').pop().toLowerCase()\<close>.\<close>

definition fileExtension :: "string \<Rightarrow> string" where
  "fileExtension name =
     CHR ''.'' # toLowerCase (rev (takeWhile (\<lambda>c. c \<noteq> CHR ''.'') (rev name)))"

definition handleFileUpload :: "uploaded_file \<Rightarrow> app \<Rightarrow> app" where
  "handleFileUpload file s =
     (if fileExtension (file_name file) \<notin> set [''.txt'', ''.pdf'', ''.doc'', ''.docx''] then
        showNotification ''Please upload a valid file type (TXT, PDF, DOC, DOCX)'' Error s
      else if file_size file > 10 * 1024 * 1024 then
        showNotification ''File size must be less than 10MB'' Error s
      else (displayUploadedFile (s\<lparr>uploadedFile := Some file\<rparr>))\<lparr>analyzeBtnDisabled := False\<rparr>)"

definition removeFile :: "app \<Rightarrow> app" where
  "removeFile s =
     s\<lparr>uploadedFile := None, uploadAreaShown := True, uploadedFileShown := False,
       fileInput := [], analyzeBtnDisabled := True\<rparr>"

definition getMockAnalysisData :: analysis where
  "getMockAnalysisData =
     \<lparr> company_name = Some ''GreenTech Solutions Inc.'',
       industry = Some ''Environmental Technology & Smart City Solutions'',
       employees = Some ''150-200'',
       revenue = Some ''$25-35 Million'',
       capabilities = Some
         [''Smart City Infrastructure Development'',
          ''IoT Sensor Networks for Environmental Monitoring'',
          ''Energy Management Systems'',
          ''Water Quality Monitoring Solutions'',
          ''Traffic Management Systems''],
       bonding_capacity = Some ''$10 Million'',
       credit_rating = Some ''4A1 (Excellent)'',
       insurance = Some ''General Liability: $2M, Professional: $5M'',
       certifications = Some
         [''ISO 9001:2015 Quality Management'',
          ''ISO 14001:2015 Environmental Management'',
          ''SOC 2 Type II Compliance'',
          ''FedRAMP Ready Status'',
          ''Minority Business Enterprise (MBE) Certified''] \<rparr>"

definition getMockRFPData :: rfp where
  "getMockRFPData =
     \<lparr> title = Some ''Smart City Environmental Monitoring System'',
       quality_score = Some ''8/10'',
       content = Some (join [CHR 0x0A]
         [''REQUEST FOR PROPOSAL'',
          ''SMART CITY ENVIRONMENTAL MONITORING SYSTEM'',
          [],
          ''PROJECT OVERVIEW'',
          ''The City seeks proposals for a comprehensive environmental monitoring system to track air quality, noise levels, and other environmental factors across the metropolitan area.'',
          [],
          ''BUDGET AND FINANCIAL REQUIREMENTS'',
          ''Estimated Budget: $1,000,000 - $2,500,000'',
          ''Contract Duration: 24 months'',
          ''Payment Terms: Net 30 days'',
          [],
          ''TECHNICAL REQUIREMENTS'',
          ''- IoT sensor network deployment'',
          ''- Real-time data collection and analysis'',
          ''- Web-based dashboard and mobile app'',
          ''- Integration with existing city systems'',
          ''- 99.9% uptime requirement'',
          [],
          ''VENDOR QUALIFICATIONS'',
          ''- Minimum 5 years experience in smart city projects'',
          ''- ISO certifications required'',
          ''- Bonding capacity of at least $5 million'',
          ''- Local presence preferred'',
          [],
          ''EVALUATION CRITERIA'',
          ''- Technical approach (40%)'',
          ''- Cost proposal (30%)'',
          ''- Company qualifications (20%)'',
          ''- Project timeline (10%)'',
          [],
          ''SUBMISSION REQUIREMENTS'',
          ''Proposals must be submitted by [DATE] and include:'',
          ''- Technical proposal'',
          ''- Cost breakdown'',
          ''- Company qualifications'',
          ''- Project timeline'',
          ''- References'',
          [],
          ''For questions, contact: procurement@city.gov'']) \<rparr>"

text \<open>The text the \<^verbatim>\<open>catch\<close> block of \<^verbatim>\<open>analyzeCompany\<close> hands to the auto-fill.\<close>

definition mockContent :: string where
  "mockContent = ''GreenTech Solutions Inc. specializes in Smart City Infrastructure Development, IoT Sensor Networks for Environmental Monitoring, Energy Management Systems, Water Quality Monitoring Solutions, and Traffic Management Systems. Recent projects include $2.5 Million smart city deployment.''"

text \<open>Of \<^verbatim>\<open>displayAnalysisResults\<close> the rendered HTML is left out; the panels and the button stay.\<close>

definition displayAnalysisResults :: "analysis \<Rightarrow> app \<Rightarrow> app" where
  "displayAnalysisResults data s =
     s\<lparr>loadingAnalysisShown := False, analysisResultsShown := True,
       generateRfpBtnDisabled := False\<rparr>"

text \<open>
  A form field is written only when the value is truthy: a non-empty string, or an array
  (every array is truthy, the empty one too).
\<close>

definition autoFillProjectDetails :: "string \<Rightarrow> analysis \<Rightarrow> app \<Rightarrow> app" where
  "autoFillProjectDetails fileContent a s =
     (let projectInfo = extractProjectInfo fileContent a;
          s1 = (if pi_description projectInfo \<noteq> []
                then s\<lparr>projectDescription := pi_description projectInfo\<rparr> else s);
          s2 = (if pi_type projectInfo \<noteq> []
                then s1\<lparr>projectType := pi_type projectInfo\<rparr> else s1);
          s3 = (if pi_budget projectInfo \<noteq> None
                then s2\<lparr>estimatedBudget := pi_budget projectInfo\<rparr> else s2);
          s4 = s3\<lparr>keywordsField := join '', '' (pi_keywords projectInfo)\<rparr>
      in showNotification ''Project details auto-filled based on company capabilities!'' Success s4)"

text \<open>The \<^verbatim>\<open>catch\<close> block of \<^verbatim>\<open>analyzeCompany\<close>.\<close>

definition analyzeCompany_catch :: "app \<Rightarrow> app" where
  "analyzeCompany_catch s =
     (let s1 = s\<lparr>consoleErrors := consoleErrors s @ [''Analysis error:'']\<rparr>;
          s2 = s1\<lparr>analysisData := Some getMockAnalysisData\<rparr>;
          s3 = displayAnalysisResults getMockAnalysisData s2
      in autoFillProjectDetails mockContent getMockAnalysisData s3)"

text \<open>
  \<^verbatim>\<open>analyzeCompany\<close>. The first argument is what reading the file gives, the second what
  the gateway answers; the request is sent only when the file could be read.
\<close>

definition analyzeCompany :: "string outcome \<Rightarrow> analysis outcome \<Rightarrow> app \<Rightarrow> app" where
  "analyzeCompany readResult response s =
     (case uploadedFile s of
        None \<Rightarrow> showNotification ''Please upload a company profile first'' Error s
      | Some file \<Rightarrow>
          let s1 = (navigateToSection Analyze s)
                     \<lparr>loadingAnalysisShown := True, analysisResultsShown := False\<rparr>
          in (case readResult of
               Failed e \<Rightarrow> analyzeCompany_catch s1
             | Returned fileContent \<Rightarrow>
                 let s2 = s1\<lparr>requests := requests s1 @
                               [AnalyzeRequest fileContent (file_name file)]\<rparr>
                 in (case response of
                       Failed e \<Rightarrow> analyzeCompany_catch s2
                     | Returned a \<Rightarrow>
                         autoFillProjectDetails fileContent a
                           (displayAnalysisResults a (s2\<lparr>analysisData := Some a\<rparr>)))))"

text \<open>Of \<^verbatim>\<open>displayRFPResults\<close> the rendered text is left out; the panels stay.\<close>

definition displayRFPResults :: "rfp \<Rightarrow> app \<Rightarrow> app" where
  "displayRFPResults data s =
     s\<lparr>loadingGenerationShown := False, rfpPreviewShown := True, feedbackSectionShown := True\<rparr>"

definition generateRFP :: "rfp outcome \<Rightarrow> app \<Rightarrow> app" where
  "generateRFP response s =
     (if trim (projectDescription s) = [] then
        showNotification ''Please provide a project description'' Error s
      else
        let s1 = (navigateToSection Results s)
                   \<lparr>loadingGenerationShown := True, rfpPreviewShown := False\<rparr>;
            s2 = s1\<lparr>requests := requests s1 @
                   [GenerateRequest (projectDescription s) (projectType s) (estimatedBudget s)
                      (filter (\<lambda>k. k \<noteq> []) (map trim (split_comma (keywordsField s))))
                      (analysisData s)]\<rparr>
        in case response of
             Returned r \<Rightarrow> displayRFPResults r (s2\<lparr>rfpData := Some r\<rparr>)
           | Failed e \<Rightarrow>
               displayRFPResults getMockRFPData
                 (s2\<lparr>consoleErrors := consoleErrors s2 @ [''RFP generation error:''],
                     rfpData := Some getMockRFPData\<rparr>))"

definition regenerateWithFeedback :: "rfp outcome \<Rightarrow> app \<Rightarrow> app" where
  "regenerateWithFeedback response s =
     (let feedback = feedbackText s in
      if trim feedback = [] then
        showNotification ''Please provide feedback for regeneration'' Error s
      else
        let s1 = s\<lparr>loadingGenerationShown := True, rfpPreviewShown := False\<rparr>;
            s2 = s1\<lparr>requests := requests s1 @ [RegenerateRequest (rfpData s) feedback]\<rparr>
        in case response of
             Returned r \<Rightarrow> (displayRFPResults r (s2\<lparr>rfpData := Some r\<rparr>))\<lparr>feedbackText := []\<rparr>
           | Failed e \<Rightarrow>
               (showNotification ''Failed to regenerate RFP. Please try again.'' Error
                  (s2\<lparr>consoleErrors := consoleErrors s2 @ [''RFP regeneration error:'']\<rparr>))
                 \<lparr>loadingGenerationShown := False, rfpPreviewShown := True\<rparr>)"

definition startNew :: "app \<Rightarrow> app" where
  "startNew s =
     (let s1 = s\<lparr>uploadedFile := None, analysisData := None, rfpData := None\<rparr>;
          s2 = s1\<lparr>fileInput := [], projectDescription := [], estimatedBudget := None,
                  keywordsField := [], feedbackText := []\<rparr>;
          s3 = (removeFile s2)\<lparr>analyzeBtnDisabled := True, generateRfpBtnDisabled := True\<rparr>
      in navigateToSection Upload s3)"

subsection \<open>The classification and the keywords, as the specification words them\<close>

text \<open>Two characters are the same letter when they are equal or the two cases of one letter.\<close>

definition same_letter :: "char \<Rightarrow> char \<Rightarrow> bool" where
  "same_letter x y =
     (x = y
      \<or> (x, y) \<in> set (zip ''abcdefghijklmnopqrstuvwxyz'' ''ABCDEFGHIJKLMNOPQRSTUVWXYZ'')
      \<or> (y, x) \<in> set (zip ''abcdefghijklmnopqrstuvwxyz'' ''ABCDEFGHIJKLMNOPQRSTUVWXYZ''))"

text \<open>A keyword occurs in a text, letter case ignored.\<close>

definition occurs_ignoring_case :: "string \<Rightarrow> string \<Rightarrow> bool" where
  "occurs_ignoring_case kw text =
     (\<exists>pre mid post. text = pre @ mid @ post \<and> list_all2 same_letter mid kw)"

text \<open>The four ordered keyword groups, first match wins.\<close>

definition stated_type :: "string \<Rightarrow> string" where
  "stated_type text =
     (if occurs_ignoring_case ''smart city'' text \<or> occurs_ignoring_case ''iot'' text
         \<or> occurs_ignoring_case ''traffic'' text then ''smart-city''
      else if occurs_ignoring_case ''environmental'' text \<or> occurs_ignoring_case ''monitoring'' text
         \<or> occurs_ignoring_case ''water'' text then ''environmental''
      else if occurs_ignoring_case ''energy'' text \<or> occurs_ignoring_case ''management'' text
        then ''energy''
      else ''general'')"

text \<open>A list without its repetitions, every element at the place it is first seen.\<close>

primrec keep_first :: "'a list \<Rightarrow> 'a list" where
  "keep_first [] = []"
| "keep_first (x # xs) = x # removeAll x (keep_first xs)"

text \<open>
  The tokens of the capability strings: each string in lower case, split at white space,
  commas and ampersands; tokens longer than three characters, in first-seen order.
\<close>

definition capability_tokens :: "string list \<Rightarrow> string list" where
  "capability_tokens caps =
     keep_first (filter (\<lambda>w. length w > 3)
       (concat (map (\<lambda>cap. split_words (toLowerCase cap)) caps)))"

text \<open>
  The keyword list in the order the specification gives: the capability tokens, then the
  technology terms that occur (the parameter says when a term occurs) and are not yet
  present, cut to eight entries.
\<close>

definition keyword_list :: "(string \<Rightarrow> bool) \<Rightarrow> string list \<Rightarrow> string list" where
  "keyword_list occurs caps =
     take 8 (capability_tokens caps @
       filter (\<lambda>k. occurs k \<and> k \<notin> set (capability_tokens caps)) techKeywords)"

text \<open>An analysis with one capability, for concrete evaluations.\<close>

definition data_center_analysis :: analysis where
  "data_center_analysis =
     \<lparr> company_name = None, industry = None, employees = None, revenue = None,
       capabilities = Some [''Data Centers''],
       bonding_capacity = None, credit_rating = None, insurance = None,
       certifications = None \<rparr>"

subsection \<open>The budget estimate, as the specification words it\<close>

text \<open>
  The texts the budget pattern describes: a dollar sign, one or more digits, optionally a
  point followed by one or more digits, any white space, and the word "million" in any
  letter case.
\<close>

definition is_budget_match :: "string \<Rightarrow> bool" where
  "is_budget_match m =
     (\<exists>ds fr ws w.
        m = CHR ''$'' # ds @ fr @ ws @ w
      \<and> ds \<noteq> [] \<and> list_all isDigit ds
      \<and> (fr = [] \<or> (\<exists>fs. fr = CHR ''.'' # fs \<and> fs \<noteq> [] \<and> list_all isDigit fs))
      \<and> list_all isSpace ws
      \<and> list_all2 same_letter w ''million'')"

text \<open>The pattern occurs somewhere in a text.\<close>

definition pattern_occurs :: "string \<Rightarrow> bool" where
  "pattern_occurs text = (\<exists>pre m post. text = pre @ m @ post \<and> is_budget_match m)"

text \<open>
  All matches of a text from left to right: at every position, the match that starts there,
  if there is one (by \<open>match_budget_at_sound\<close> and \<open>match_budget_at_complete\<close> it is the one
  text of the pattern that starts there).
\<close>

fun occurrences :: "string \<Rightarrow> string list" where
  "occurrences [] = []"
| "occurrences (c # cs) =
     (case match_budget_at (c # cs) of
        None \<Rightarrow> occurrences cs
      | Some (m, rest) \<Rightarrow> m # occurrences cs)"

text \<open>The number written with the given integer digits and fraction digits.\<close>

definition decimal_value :: "string \<Rightarrow> string \<Rightarrow> rat" where
  "decimal_value ip fp = of_nat (digits_val ip) + of_nat (digits_val fp) / 10 ^ length fp"

text \<open>The number written after the dollar sign of a match.\<close>

definition written_amount :: "string \<Rightarrow> rat" where
  "written_amount m =
     (let t = tl m; ip = takeWhile isDigit t; r = dropWhile isDigit t
      in decimal_value ip
           (case r of [] \<Rightarrow> [] | c # r' \<Rightarrow> if c = CHR ''.'' then takeWhile isDigit r' else []))"

text \<open>
  Every amount times one million, sorted in ascending order; the element at index
  \<open>count div 2\<close>, and no value when there is no match.
\<close>

definition stated_budget :: "string \<Rightarrow> rat option" where
  "stated_budget text =
     (let amounts = sort (map (\<lambda>m. written_amount m * 1000000) (occurrences text))
      in if amounts = [] then None else Some (amounts ! (length amounts div 2)))"

subsection \<open>Sample sessions\<close>

text \<open>
  A page as it is before any input, with an empty form and both buttons disabled, and three
  sessions built on it; they serve as concrete inputs.
\<close>

definition blank_page :: app where
  "blank_page =
     \<lparr> currentSection = Upload, uploadedFile = None, analysisData = None, rfpData = None,
       fileInput = [], projectDescription = [], projectType = ''general'',
       estimatedBudget = None, keywordsField = [], feedbackText = [],
       analyzeBtnDisabled = True, generateRfpBtnDisabled = True,
       uploadAreaShown = True, uploadedFileShown = False,
       loadingAnalysisShown = False, analysisResultsShown = False,
       loadingGenerationShown = False, rfpPreviewShown = False, feedbackSectionShown = False,
       notifications = [], consoleErrors = [], requests = [] \<rparr>"

definition profile_txt :: uploaded_file where
  "profile_txt = \<lparr> file_name = ''profile.txt'', file_size = 2048 \<rparr>"

definition uploaded_page :: app where
  "uploaded_page = handleFileUpload profile_txt blank_page"


text \<open>A generated document is on screen and the user typed feedback.\<close>

definition review_page :: app where
  "review_page =
     blank_page\<lparr>currentSection := Results, rfpData := Some getMockRFPData,
       projectDescription := ''Deploy air quality sensors'',
       feedbackText := ''Shorten the timeline''\<rparr>"

text \<open>The profile was uploaded and analysed while the gateway was down.\<close>

definition analyzed_page :: app where
  "analyzed_page =
     analyzeCompany (Returned ''Acme builds bridges.'') (Failed NetworkError) uploaded_page"

section \<open>Properties\<close>

subsection \<open>The degraded analysis\<close>

lemma mock_project_info:
  "extractProjectInfo mockContent getMockAnalysisData =
     \<lparr> pi_description = ''Develop a comprehensive smart city solution incorporating smart city infrastructure development, iot sensor networks for environmental monitoring, energy management systems. The project should leverage IoT sensors, real-time data analytics, and cloud-based platforms to improve city operations and citizen services.'',
       pi_type = ''smart-city'',
       pi_budget = Some 2500000,
       pi_keywords = [''smart'', ''city'', ''infrastructure'', ''development'', ''sensor'',
                      ''networks'', ''environmental'', ''monitoring''] \<rparr>"
  by code_simp

lemma analyzeCompany_catch_eq:
  "analyzeCompany_catch s =
     s\<lparr>consoleErrors := consoleErrors s @ [''Analysis error:''],
       analysisData := Some getMockAnalysisData,
       loadingAnalysisShown := False, analysisResultsShown := True,
       generateRfpBtnDisabled := False,
       projectDescription := pi_description (extractProjectInfo mockContent getMockAnalysisData),
       projectType := ''smart-city'',
       estimatedBudget := Some 2500000,
       keywordsField := ''smart, city, infrastructure, development, sensor, networks, environmental, monitoring'',
       notifications := notifications s @
         [(''Project details auto-filled based on company capabilities!'', Success)]\<rparr>"
  by (simp add: analyzeCompany_catch_def autoFillProjectDetails_def displayAnalysisResults_def
      showNotification_def mock_project_info Let_def)

lemma uploaded_page_file: "uploadedFile uploaded_page = Some profile_txt"
  by (simp add: uploaded_page_def handleFileUpload_def profile_txt_def blank_page_def
      fileExtension_def toLowerCase_def toLowerChar_def displayUploadedFile_def)

text \<open>
  Claim C1. When a document is uploaded and the gateway call of \<^verbatim>\<open>analyzeCompany\<close> fails,
  whatever the failure, the mock analysis (which has a company name and a non-empty list of
  capabilities) is stored, the stage is Analyze, the only notification added is the success
  message of the auto-fill, and stage, generate button, panels and notifications are what
  they are after a successful call.
\<close>

theorem analyze_gateway_failure_degrades:
  assumes "uploadedFile s = Some file"
  shows "analysisData (analyzeCompany (Returned text) (Failed e) s) = Some getMockAnalysisData
       \<and> company_name getMockAnalysisData \<noteq> None
       \<and> capabilities getMockAnalysisData \<noteq> None \<and> capabilities getMockAnalysisData \<noteq> Some []
       \<and> currentSection (analyzeCompany (Returned text) (Failed e) s) = Analyze
       \<and> notifications (analyzeCompany (Returned text) (Failed e) s) =
           notifications s @ [(''Project details auto-filled based on company capabilities!'', Success)]
       \<and> (\<forall>a. currentSection (analyzeCompany (Returned text) (Returned a) s)
                = currentSection (analyzeCompany (Returned text) (Failed e) s)
             \<and> generateRfpBtnDisabled (analyzeCompany (Returned text) (Returned a) s)
                = generateRfpBtnDisabled (analyzeCompany (Returned text) (Failed e) s)
             \<and> loadingAnalysisShown (analyzeCompany (Returned text) (Returned a) s)
                = loadingAnalysisShown (analyzeCompany (Returned text) (Failed e) s)
             \<and> analysisResultsShown (analyzeCompany (Returned text) (Returned a) s)
                = analysisResultsShown (analyzeCompany (Returned text) (Failed e) s)
             \<and> notifications (analyzeCompany (Returned text) (Returned a) s)
                = notifications (analyzeCompany (Returned text) (Failed e) s))"
  using assms
  by (simp add: analyzeCompany_def analyzeCompany_catch_eq navigateToSection_def
      autoFillProjectDetails_def displayAnalysisResults_def showNotification_def Let_def
      getMockAnalysisData_def)

theorem analyze_gateway_failure_degrades_witness:
  "uploadedFile uploaded_page = Some profile_txt
   \<and> analysisData (analyzeCompany (Returned ''Acme builds bridges.'') (Failed (NonOkStatus 503))
        uploaded_page) = Some getMockAnalysisData
   \<and> currentSection (analyzeCompany (Returned ''Acme builds bridges.'') (Failed (NonOkStatus 503))
        uploaded_page) = Analyze
   \<and> notifications (analyzeCompany (Returned ''Acme builds bridges.'') (Failed (NonOkStatus 503))
        uploaded_page) =
       notifications uploaded_page @
         [(''Project details auto-filled based on company capabilities!'', Success)]"
  using analyze_gateway_failure_degrades [OF uploaded_page_file,
      of "''Acme builds bridges.''" "NonOkStatus 503"]
  by (simp add: uploaded_page_file)

text \<open>
  Claim C7. Without an uploaded document \<^verbatim>\<open>analyzeCompany\<close> only shows the error
  notification: the state is otherwise the same, so no request is sent and neither the stage
  nor any stored data changes.
\<close>

theorem analyze_without_upload:
  assumes "uploadedFile s = None"
  shows "analyzeCompany readResult response s =
           s\<lparr>notifications := notifications s @
               [(''Please upload a company profile first'', Error)]\<rparr>
       \<and> requests (analyzeCompany readResult response s) = requests s
       \<and> currentSection (analyzeCompany readResult response s) = currentSection s
       \<and> analysisData (analyzeCompany readResult response s) = analysisData s"
  using assms by (simp add: analyzeCompany_def showNotification_def)

theorem analyze_without_upload_witness:
  "uploadedFile blank_page = None
   \<and> analyzeCompany (Returned ''Acme builds bridges.'') (Returned getMockAnalysisData) blank_page =
       blank_page\<lparr>notifications := [(''Please upload a company profile first'', Error)]\<rparr>
   \<and> requests (analyzeCompany (Returned ''Acme builds bridges.'') (Returned getMockAnalysisData)
        blank_page) = []
   \<and> currentSection (analyzeCompany (Returned ''Acme builds bridges.'')
        (Returned getMockAnalysisData) blank_page) = Upload"
  using analyze_without_upload [of blank_page "Returned ''Acme builds bridges.''"
      "Returned getMockAnalysisData"]
  by (simp add: blank_page_def)

text \<open>
  Claim C10. When the analysis falls into its \<^verbatim>\<open>catch\<close> block (the file could not be
  read, or the gateway failed), the four fields of the project brief are filled from
  \<open>mockContent\<close> and the mock analysis: they are the constants below, whatever the uploaded
  file, its text and the earlier state. The sample text mentions smart city, IoT,
  environmental monitoring and "$2.5 Million".
\<close>

theorem degraded_brief_is_constant:
  assumes "uploadedFile s = Some file"
  shows "projectDescription (analyzeCompany readResult (Failed e) s) =
           pi_description (extractProjectInfo mockContent getMockAnalysisData)
       \<and> projectDescription (analyzeCompany readResult (Failed e) s) =
           ''Develop a comprehensive smart city solution incorporating smart city infrastructure development, iot sensor networks for environmental monitoring, energy management systems. The project should leverage IoT sensors, real-time data analytics, and cloud-based platforms to improve city operations and citizen services.''
       \<and> projectType (analyzeCompany readResult (Failed e) s) = ''smart-city''
       \<and> estimatedBudget (analyzeCompany readResult (Failed e) s) = Some 2500000
       \<and> keywordsField (analyzeCompany readResult (Failed e) s) =
           ''smart, city, infrastructure, development, sensor, networks, environmental, monitoring''
       \<and> str_includes mockContent ''Smart City'' \<and> str_includes mockContent ''IoT''
       \<and> str_includes mockContent ''Environmental Monitoring''
       \<and> str_includes mockContent ''$2.5 Million''"
proof -
  have brief: "projectDescription (analyzeCompany readResult (Failed e) s) =
           pi_description (extractProjectInfo mockContent getMockAnalysisData)
       \<and> projectType (analyzeCompany readResult (Failed e) s) = ''smart-city''
       \<and> estimatedBudget (analyzeCompany readResult (Failed e) s) = Some 2500000
       \<and> keywordsField (analyzeCompany readResult (Failed e) s) =
           ''smart, city, infrastructure, development, sensor, networks, environmental, monitoring''"
    using assms
    by (cases readResult)
      (simp_all add: analyzeCompany_def analyzeCompany_catch_eq navigateToSection_def Let_def)
  have mentions: "str_includes mockContent ''Smart City'' \<and> str_includes mockContent ''IoT''
       \<and> str_includes mockContent ''Environmental Monitoring''
       \<and> str_includes mockContent ''$2.5 Million''"
    by code_simp
  show ?thesis
    using brief mentions by (simp add: mock_project_info)
qed

theorem degraded_brief_is_constant_witness:
  "uploadedFile uploaded_page = Some profile_txt
   \<and> projectType (analyzeCompany (Returned ''Acme builds bridges.'') (Failed Timeout)
        uploaded_page) = ''smart-city''
   \<and> estimatedBudget (analyzeCompany (Returned ''Acme builds bridges.'') (Failed Timeout)
        uploaded_page) = Some 2500000
   \<and> keywordsField (analyzeCompany (Failed MalformedBody) (Failed Timeout) uploaded_page) =
       ''smart, city, infrastructure, development, sensor, networks, environmental, monitoring''"
  using degraded_brief_is_constant [OF uploaded_page_file,
      of "Returned ''Acme builds bridges.''" Timeout]
    degraded_brief_is_constant [OF uploaded_page_file, of "Failed MalformedBody" Timeout]
  by (simp add: uploaded_page_file)

subsection \<open>Generation, regeneration and reset\<close>

lemma trim_sample_description: "trim ''Deploy air quality sensors'' \<noteq> []"
  by (simp add: trim_def isSpace_def)


lemma trim_sample_feedback: "trim ''Shorten the timeline'' \<noteq> []"
  by (simp add: trim_def isSpace_def)

text \<open>
  Claim C2. With non-empty feedback, when the gateway call of \<^verbatim>\<open>regenerateWithFeedback\<close>
  fails, the stored document is the one stored before, the error notification is shown, and
  apart from the logged request, the console line, the notification and the two panels the
  state is unchanged. The generation handler differs: on the same failure it stores the mock
  document.
\<close>

theorem regenerate_failure_surfaced:
  assumes "trim (feedbackText s) \<noteq> []"
  shows "rfpData (regenerateWithFeedback (Failed e) s) = rfpData s
       \<and> notifications (regenerateWithFeedback (Failed e) s) =
           notifications s @ [(''Failed to regenerate RFP. Please try again.'', Error)]
       \<and> regenerateWithFeedback (Failed e) s =
           s\<lparr>requests := requests s @ [RegenerateRequest (rfpData s) (feedbackText s)],
             consoleErrors := consoleErrors s @ [''RFP regeneration error:''],
             notifications := notifications s @
               [(''Failed to regenerate RFP. Please try again.'', Error)],
             loadingGenerationShown := False, rfpPreviewShown := True\<rparr>
       \<and> (trim (projectDescription s) \<noteq> [] \<longrightarrow>
            rfpData (generateRFP (Failed e) s) = Some getMockRFPData)"
  using assms
  by (simp add: regenerateWithFeedback_def generateRFP_def showNotification_def
      displayRFPResults_def navigateToSection_def Let_def)

theorem regenerate_failure_surfaced_witness:
  "trim (feedbackText review_page) \<noteq> []
   \<and> rfpData (regenerateWithFeedback (Failed (NonOkStatus 500)) review_page) = rfpData review_page
   \<and> notifications (regenerateWithFeedback (Failed (NonOkStatus 500)) review_page) =
       [(''Failed to regenerate RFP. Please try again.'', Error)]
   \<and> trim (projectDescription review_page) \<noteq> []
   \<and> rfpData (generateRFP (Failed (NonOkStatus 500)) review_page) = Some getMockRFPData"
  using regenerate_failure_surfaced [of review_page "NonOkStatus 500"]
  by (simp add: review_page_def blank_page_def trim_sample_description trim_sample_feedback)




text \<open>The sample session after the degraded analysis, written out.\<close>

lemma analyzed_page_eq:
  "analyzed_page =
     blank_page\<lparr>currentSection := Analyze, uploadedFile := Some profile_txt,
       analysisData := Some getMockAnalysisData,
       projectDescription := pi_description (extractProjectInfo mockContent getMockAnalysisData),
       projectType := ''smart-city'', estimatedBudget := Some 2500000,
       keywordsField := ''smart, city, infrastructure, development, sensor, networks, environmental, monitoring'',
       analyzeBtnDisabled := False, generateRfpBtnDisabled := False,
       uploadAreaShown := False, uploadedFileShown := True,
       analysisResultsShown := True,
       notifications := [(''Project details auto-filled based on company capabilities!'', Success)],
       consoleErrors := [''Analysis error:''],
       requests := [AnalyzeRequest ''Acme builds bridges.'' ''profile.txt'']\<rparr>"
  by (simp add: analyzed_page_def analyzeCompany_def uploaded_page_file analyzeCompany_catch_eq
      navigateToSection_def Let_def)
    (simp add: uploaded_page_def handleFileUpload_def profile_txt_def blank_page_def
      fileExtension_def toLowerCase_def toLowerChar_def displayUploadedFile_def)

text \<open>What \<^verbatim>\<open>startNew\<close> writes: every field of the state but the ones listed keeps its value.\<close>

lemma startNew_eq:
  "startNew s =
     s\<lparr>currentSection := Upload, uploadedFile := None, analysisData := None, rfpData := None,
       fileInput := [], projectDescription := [], estimatedBudget := None,
       keywordsField := [], feedbackText := [],
       uploadAreaShown := True, uploadedFileShown := False,
       analyzeBtnDisabled := True, generateRfpBtnDisabled := True\<rparr>"
  by (simp add: startNew_def removeFile_def navigateToSection_def Let_def)

text \<open>
  Claim C9 on the code: after an analysis has filled the form, \<^verbatim>\<open>startNew\<close> clears the
  uploaded file, the analysis, the generated document, and the description, budget and
  keywords of the brief, and returns to Upload; the project type of the brief is not among
  the fields it resets and keeps the value the analysis gave it.
\<close>

theorem startNew_keeps_project_type:
  "projectType analyzed_page = ''smart-city''
   \<and> projectType (startNew analyzed_page) = ''smart-city''
   \<and> projectType (startNew analyzed_page) \<noteq> projectType blank_page
   \<and> uploadedFile (startNew analyzed_page) = None
   \<and> analysisData (startNew analyzed_page) = None
   \<and> rfpData (startNew analyzed_page) = None
   \<and> projectDescription (startNew analyzed_page) = []
   \<and> estimatedBudget (startNew analyzed_page) = None
   \<and> keywordsField (startNew analyzed_page) = []
   \<and> currentSection (startNew analyzed_page) = Upload"
  by (simp add: startNew_eq analyzed_page_eq blank_page_def)

subsection \<open>Classification\<close>

lemma toUpperChar_cases:
  "(toUpperChar x = x \<and> x \<notin> set ''abcdefghijklmnopqrstuvwxyz'')
   \<or> (x, toUpperChar x) \<in> set (zip ''abcdefghijklmnopqrstuvwxyz'' ''ABCDEFGHIJKLMNOPQRSTUVWXYZ'')"
  by (simp add: toUpperChar_def)

lemma toUpperChar_eq_iff: "toUpperChar x = toUpperChar y \<longleftrightarrow> same_letter x y"
  using toUpperChar_cases [of x] toUpperChar_cases [of y]
  apply (simp add: same_letter_def)
  apply (elim disjE conjE; simp; fastforce?)
  done

lemma toUpperCase_eq_iff: "toUpperCase a = toUpperCase b \<longleftrightarrow> list_all2 same_letter a b"
proof -
  have "toUpperCase a = toUpperCase b
      \<longleftrightarrow> list_all2 (=) (map toUpperChar a) (map toUpperChar b)"
    by (simp add: toUpperCase_def list_all2_eq)
  also have "\<dots> \<longleftrightarrow> list_all2 (\<lambda>x y. toUpperChar x = toUpperChar y) a b"
    by (simp add: list_all2_map1 list_all2_map2)
  finally show ?thesis
    by (simp add: toUpperChar_eq_iff)
qed

text \<open>\<^verbatim>\<open>includes\<close> is the contiguous-sublist relation of the list library.\<close>

lemma str_includes_sublist: "str_includes s sub \<longleftrightarrow> sublist sub s"
  by (induction s) (simp_all add: sublist_Cons_right)

text \<open>
  Upper-casing the text and looking for the upper-cased keyword is the search that ignores
  letter case.
\<close>

lemma str_includes_upper_iff:
  "str_includes (toUpperCase text) (toUpperCase kw) \<longleftrightarrow> occurs_ignoring_case kw text"
proof
  assume "str_includes (toUpperCase text) (toUpperCase kw)"
  then obtain ps ss where "toUpperCase text = ps @ toUpperCase kw @ ss"
    by (auto simp: str_includes_sublist sublist_def)
  then have "map toUpperChar text = ps @ (toUpperCase kw @ ss)"
    by (simp add: toUpperCase_def)
  then have "\<exists>us vs. text = us @ vs \<and> ps = map toUpperChar us
      \<and> toUpperCase kw @ ss = map toUpperChar vs"
    by (simp only: map_eq_append_conv)
  then obtain pre rest where p: "text = pre @ rest"
    and "toUpperCase kw @ ss = map toUpperChar rest"
    by blast
  then have "\<exists>us vs. rest = us @ vs \<and> toUpperCase kw = map toUpperChar us
      \<and> ss = map toUpperChar vs"
    by (simp only: append_eq_map_conv)
  then obtain mid post where "rest = mid @ post" "toUpperCase kw = map toUpperChar mid"
    by blast
  with p have "text = pre @ mid @ post" "map toUpperChar mid = toUpperCase kw"
    by simp_all
  then show "occurs_ignoring_case kw text"
    unfolding occurs_ignoring_case_def
    using toUpperCase_eq_iff [of mid kw] by (auto simp: toUpperCase_def)
next
  assume "occurs_ignoring_case kw text"
  then obtain pre mid post where t: "text = pre @ mid @ post" and "list_all2 same_letter mid kw"
    by (auto simp: occurs_ignoring_case_def)
  then have "toUpperCase mid = toUpperCase kw"
    by (simp add: toUpperCase_eq_iff)
  then have "toUpperCase text = toUpperCase pre @ toUpperCase kw @ toUpperCase post"
    using t by (simp add: toUpperCase_def)
  then show "str_includes (toUpperCase text) (toUpperCase kw)"
    by (auto simp: str_includes_sublist sublist_def)
qed

lemma classify_stated: "classify (toUpperCase text) = stated_type text"
proof -
  have u: "''SMART CITY'' = toUpperCase ''smart city''" "''IOT'' = toUpperCase ''iot''"
    "''TRAFFIC'' = toUpperCase ''traffic''" "''ENVIRONMENTAL'' = toUpperCase ''environmental''"
    "''MONITORING'' = toUpperCase ''monitoring''" "''WATER'' = toUpperCase ''water''"
    "''ENERGY'' = toUpperCase ''energy''" "''MANAGEMENT'' = toUpperCase ''management''"
    by (simp_all add: toUpperCase_def toUpperChar_def)
  show ?thesis
    unfolding classify_def stated_type_def u str_includes_upper_iff ..
qed

text \<open>
  Claim C4. The project type of \<^verbatim>\<open>extractProjectInfo\<close> is given by the four ordered
  keyword groups searched without regard to letter case, the first group that matches
  winning; in particular a text in which both "smart city" and "water" occur is classified
  smart-city.
\<close>

theorem type_classification:
  "pi_type (extractProjectInfo text a) = stated_type text
   \<and> (occurs_ignoring_case ''smart city'' text \<and> occurs_ignoring_case ''water'' text
        \<longrightarrow> pi_type (extractProjectInfo text a) = ''smart-city'')"
  by (simp add: extractProjectInfo_def Let_def classify_stated stated_type_def)

theorem type_classification_witness:
  "occurs_ignoring_case ''smart city'' ''Smart City water metering''
   \<and> occurs_ignoring_case ''water'' ''Smart City water metering''
   \<and> pi_type (extractProjectInfo ''Smart City water metering'' getMockAnalysisData) = ''smart-city''
   \<and> stated_type ''Smart City water metering'' = ''smart-city''"
proof -
  have a: "occurs_ignoring_case ''smart city'' ''Smart City water metering''"
    unfolding str_includes_upper_iff [symmetric] by code_simp
  have b: "occurs_ignoring_case ''water'' ''Smart City water metering''"
    unfolding str_includes_upper_iff [symmetric] by code_simp
  from type_classification [of "''Smart City water metering''" getMockAnalysisData] a b
  have c: "pi_type (extractProjectInfo ''Smart City water metering'' getMockAnalysisData) =
        stated_type ''Smart City water metering''"
    and d: "pi_type (extractProjectInfo ''Smart City water metering'' getMockAnalysisData) =
        ''smart-city''"
    by blast+
  from c d have "stated_type ''Smart City water metering'' = ''smart-city''"
    by (rule trans [OF sym])
  with a b d show ?thesis
    by blast
qed

subsection \<open>Keywords\<close>

text \<open>
  The pieces of \<open>split_words\<close> hold no separator, and together they are the characters of
  the string that are no separators, in order.
\<close>

lemma split_go_pieces:
  "w \<in> set (split_go insep cur s) \<Longrightarrow> \<forall>c\<in>set cur. \<not> isWordSep c \<Longrightarrow>
     \<forall>c\<in>set w. \<not> isWordSep c"
proof (induction s arbitrary: insep cur)
  case Nil
  then show ?case by simp
next
  case (Cons c s)
  show ?case
  proof (cases "isWordSep c")
    case True
    show ?thesis
    proof (cases insep)
      case True
      with \<open>isWordSep c\<close> Cons.prems have "w \<in> set (split_go True cur s)" by simp
      then show ?thesis using Cons.prems(2) by (rule Cons.IH)
    next
      case False
      with \<open>isWordSep c\<close> Cons.prems have "w = cur \<or> w \<in> set (split_go True [] s)" by simp
      then show ?thesis
      proof
        assume "w = cur"
        with Cons.prems(2) show ?thesis by simp
      next
        assume "w \<in> set (split_go True [] s)"
        then show ?thesis by (rule Cons.IH) simp
      qed
    qed
  next
    case False
    with Cons.prems have "w \<in> set (split_go False (cur @ [c]) s)" by simp
    moreover have "\<forall>x\<in>set (cur @ [c]). \<not> isWordSep x"
      using False Cons.prems(2) by simp
    ultimately show ?thesis by (rule Cons.IH)
  qed
qed

lemma split_go_concat:
  "concat (split_go insep cur s) = cur @ filter (\<lambda>c. \<not> isWordSep c) s"
  by (induction s arbitrary: insep cur) simp_all

lemma split_words_pieces: "w \<in> set (split_words s) \<Longrightarrow> \<forall>c\<in>set w. \<not> isWordSep c"
  using split_go_pieces [of w False "[]" s] by (simp add: split_words_def)

lemma split_words_concat: "concat (split_words s) = filter (\<lambda>c. \<not> isWordSep c) s"
  by (simp add: split_words_def split_go_concat)

lemma set_keep_first: "set (keep_first xs) = set xs"
  by (induction xs) auto

lemma distinct_keep_first: "distinct (keep_first xs)"
  by (induction xs) (auto simp: distinct_removeAll)

text \<open>The loop that pushes a word unless it is already there computes \<open>keep_first\<close>.\<close>

lemma foldl_push_new:
  "foldl (\<lambda>acc w. if P w \<and> w \<notin> set acc then acc @ [w] else acc) acc ws =
     acc @ filter (\<lambda>w. w \<notin> set acc) (keep_first (filter P ws))"
proof (induction ws arbitrary: acc)
  case Nil
  then show ?case by simp
next
  case (Cons w ws)
  have r: "filter (\<lambda>x. x \<noteq> w \<and> x \<notin> set acc) zs = filter (\<lambda>x. x \<notin> set acc) (removeAll w zs)"
    for zs :: "'a list"
    by (induction zs) auto
  have q: "w \<in> set acc \<Longrightarrow>
      filter (\<lambda>x. x \<notin> set acc) (removeAll w zs) = filter (\<lambda>x. x \<notin> set acc) zs"
    for zs :: "'a list"
    by (induction zs) auto
  show ?case
    using Cons.IH [of "acc @ [w]"] Cons.IH [of acc]
    by (auto simp: r q)
qed

lemma foldl_add_cap_word:
  "foldl add_cap_word acc ws =
     acc @ filter (\<lambda>w. w \<notin> set acc) (keep_first (filter (\<lambda>w. length w > 3) ws))"
proof -
  have h: "add_cap_word = (\<lambda>acc w. if 3 < length w \<and> w \<notin> set acc then acc @ [w] else acc)"
    by (auto simp: add_cap_word_def fun_eq_iff)
  show ?thesis
    unfolding h by (rule foldl_push_new)
qed

lemma foldl_add_capability:
  "foldl add_capability acc caps =
     foldl add_cap_word acc (concat (map (\<lambda>cap. split_words (toLowerCase cap)) caps))"
  by (induction caps arbitrary: acc) (simp_all add: add_capability_def)

lemma cap_keywords: "foldl add_capability [] caps = capability_tokens caps"
  by (simp add: foldl_add_capability foldl_add_cap_word capability_tokens_def)

lemma keep_first_distinct: "distinct xs \<Longrightarrow> keep_first xs = xs"
  by (induction xs) (auto simp: set_keep_first)

lemma distinct_techKeywords: "distinct techKeywords"
  by (simp add: techKeywords_def)

lemma foldl_add_tech_keyword:
  "foldl (add_tech_keyword u) acc techKeywords =
     acc @ filter (\<lambda>k. str_includes u (toUpperCase k) \<and> k \<notin> set acc) techKeywords"
proof -
  have "add_tech_keyword u =
      (\<lambda>acc k. if str_includes u (toUpperCase k) \<and> k \<notin> set acc then acc @ [k] else acc)"
    by (auto simp: add_tech_keyword_def fun_eq_iff)
  then have "foldl (add_tech_keyword u) acc techKeywords =
      acc @ filter (\<lambda>k. k \<notin> set acc)
        (keep_first (filter (\<lambda>k. str_includes u (toUpperCase k)) techKeywords))"
    by (simp only: foldl_push_new)
  also have "keep_first (filter (\<lambda>k. str_includes u (toUpperCase k)) techKeywords) =
      filter (\<lambda>k. str_includes u (toUpperCase k)) techKeywords"
    by (rule keep_first_distinct) (simp add: distinct_techKeywords)
  finally show ?thesis
    by (simp add: conj_commute)
qed

lemma all_keywords_stated:
  "take 8 (all_keywords (toUpperCase text) caps) =
     keyword_list (\<lambda>k. sublist (toUpperCase k) (toUpperCase text)) caps"
  by (simp add: all_keywords_def cap_keywords foldl_add_tech_keyword keyword_list_def
      str_includes_sublist)

lemma distinct_keyword_list: "distinct (keyword_list occurs caps)"
  unfolding keyword_list_def
  by (rule distinct_take) (auto simp: distinct_keep_first capability_tokens_def distinct_techKeywords)

text \<open>
  Claim C5, as stated, fails: the code looks for the upper-cased term in the upper-cased
  text, not in the text as it is. For the text "we run cloud services" and the capability
  "Data Centers" the code returns data, centers, cloud, while the list of the claim, which
  looks for "CLOUD" in the text itself, ends after data, centers.
\<close>

theorem keyword_list_literal_counterexample:
  "pi_keywords (extractProjectInfo ''we run cloud services'' data_center_analysis) =
     [''data'', ''centers'', ''cloud'']
   \<and> keyword_list (\<lambda>k. sublist (toUpperCase k) ''we run cloud services'') [''Data Centers''] =
     [''data'', ''centers'']"
  by code_simp

text \<open>
  Claim C5, amended. The keyword list of \<^verbatim>\<open>extractProjectInfo\<close> has at most eight
  entries and no duplicates, and it is the capability tokens in first-seen order, followed by
  the technology terms whose upper-cased form occurs in the upper-cased text and that are not
  already present, cut to the first eight.
\<close>

theorem keywords_as_stated:
  "pi_keywords (extractProjectInfo text a) =
     keyword_list (\<lambda>k. sublist (toUpperCase k) (toUpperCase text))
       (case capabilities a of Some cs \<Rightarrow> cs | None \<Rightarrow> [])
   \<and> length (pi_keywords (extractProjectInfo text a)) \<le> 8
   \<and> distinct (pi_keywords (extractProjectInfo text a))"
proof -
  have eq: "pi_keywords (extractProjectInfo text a) =
     keyword_list (\<lambda>k. sublist (toUpperCase k) (toUpperCase text))
       (case capabilities a of Some cs \<Rightarrow> cs | None \<Rightarrow> [])"
    by (simp add: extractProjectInfo_def Let_def all_keywords_stated)
  have "length (pi_keywords (extractProjectInfo text a)) \<le> 8"
    by (simp add: extractProjectInfo_def Let_def)
  with eq show ?thesis
    by (simp add: distinct_keyword_list)
qed

theorem keywords_as_stated_witness:
  "pi_keywords (extractProjectInfo ''we run cloud services'' data_center_analysis) =
     keyword_list (\<lambda>k. sublist (toUpperCase k) (toUpperCase ''we run cloud services''))
       [''Data Centers'']
   \<and> keyword_list (\<lambda>k. sublist (toUpperCase k) (toUpperCase ''we run cloud services''))
       [''Data Centers''] = [''data'', ''centers'', ''cloud'']"
proof -
  have "keyword_list (\<lambda>k. sublist (toUpperCase k) (toUpperCase ''we run cloud services''))
       [''Data Centers''] = [''data'', ''centers'', ''cloud'']"
    by code_simp
  with keywords_as_stated [of "''we run cloud services''" data_center_analysis]
  show ?thesis
    by (simp add: data_center_analysis_def)
qed

subsection \<open>The budget pattern\<close>

lemma takeWhile_run:
  "list_all P xs \<Longrightarrow> ys = [] \<or> \<not> P (hd ys) \<Longrightarrow>
     takeWhile P (xs @ ys) = xs \<and> dropWhile P (xs @ ys) = ys"
proof (induction xs)
  case Nil
  then show ?case by (cases ys) auto
next
  case (Cons x xs)
  then show ?case by simp
qed

lemma list_all_takeWhile: "list_all P (takeWhile P xs)"
  by (induction xs) auto

lemma million_upper: "toUpperCase w = ''MILLION'' \<longleftrightarrow> list_all2 same_letter w ''million''"
proof -
  have "''MILLION'' = toUpperCase ''million''"
    by (simp add: toUpperCase_def toUpperChar_def)
  then show ?thesis
    by (simp only: toUpperCase_eq_iff)
qed

lemma same_letter_m:
  assumes "same_letter c CHR ''m''"
  shows "\<not> isDigit c" "\<not> isSpace c" "c \<noteq> CHR ''.''" "c \<noteq> CHR ''$''"
  using assms by (auto simp: same_letter_def isDigit_def isSpace_def)

lemma space_not_digit: "isSpace c \<Longrightarrow> \<not> isDigit c"
  by (auto simp: isSpace_def isDigit_def)

lemma match_fraction_sound:
  assumes "match_fraction s = (fr, r)"
  shows "s = fr @ r"
    and "fr = [] \<or> (\<exists>fs. fr = CHR ''.'' # fs \<and> fs \<noteq> [] \<and> list_all isDigit fs)"
  using assms
  by (auto simp: match_fraction_def list_all_takeWhile split: list.splits if_splits)

text \<open>
  One attempt of the pattern returns a text of the pattern, and finds the text of the pattern
  that starts at the position whenever there is one: taking as much as possible at every
  quantifier loses nothing, and at most one text of the pattern starts at a position.
\<close>

lemma match_budget_at_sound:
  assumes "match_budget_at s = Some (m, r)"
  shows "s = m @ r \<and> is_budget_match m"
proof -
  from assms obtain cs where s: "s = CHR ''$'' # cs"
    by (auto simp: match_budget_at_def split: list.splits if_splits)
  define ds where "ds = takeWhile isDigit cs"
  obtain fr r2 where f: "match_fraction (dropWhile isDigit cs) = (fr, r2)"
    by (cases "match_fraction (dropWhile isDigit cs)")
  define ws where "ws = takeWhile isSpace r2"
  define r3 where "r3 = dropWhile isSpace r2"
  from assms s f have ds: "ds \<noteq> []"
    and up: "toUpperCase (take 7 r3) = ''MILLION''"
    and m: "m = CHR ''$'' # ds @ fr @ ws @ take 7 r3"
    and r: "r = drop 7 r3"
    by (auto simp: match_budget_at_def Let_def ds_def ws_def r3_def split: if_splits)
  have "cs = ds @ dropWhile isDigit cs"
    by (simp add: ds_def)
  also have "dropWhile isDigit cs = fr @ r2"
    using match_fraction_sound(1) [OF f] .
  also have "r2 = ws @ r3"
    by (simp add: ws_def r3_def)
  also have "r3 = take 7 r3 @ drop 7 r3"
    by simp
  finally have "s = m @ r"
    by (simp add: s m r)
  moreover have "is_budget_match m"
    unfolding is_budget_match_def
    using ds match_fraction_sound(2) [OF f] up
    by (intro exI [of _ ds] exI [of _ fr] exI [of _ ws] exI [of _ "take 7 r3"])
      (simp add: m ds_def ws_def list_all_takeWhile million_upper)
  ultimately show ?thesis ..
qed

lemma match_budget_at_complete:
  assumes "is_budget_match m"
  shows "match_budget_at (m @ r) = Some (m, r)"
proof -
  from assms obtain ds fr ws w where m: "m = CHR ''$'' # ds @ fr @ ws @ w"
    and ds: "ds \<noteq> []" "list_all isDigit ds"
    and fr: "fr = [] \<or> (\<exists>fs. fr = CHR ''.'' # fs \<and> fs \<noteq> [] \<and> list_all isDigit fs)"
    and ws: "list_all isSpace ws"
    and w: "list_all2 same_letter w ''million''"
    unfolding is_budget_match_def by blast
  from w obtain w0 w' where w0: "w = w0 # w'" "same_letter w0 CHR ''m''" and len: "length w = 7"
    by (auto simp: list_all2_Cons2)
  have up: "toUpperCase w = ''MILLION''"
    using w by (simp add: million_upper)
  have hd_w: "\<not> isDigit (hd (w @ r))" "\<not> isSpace (hd (w @ r))" "hd (w @ r) \<noteq> CHR ''.''"
    using same_letter_m [OF w0(2)] by (simp_all add: w0)
  have hd_ws: "\<not> isDigit (hd (ws @ w @ r))" "hd (ws @ w @ r) \<noteq> CHR ''.''"
    using hd_w ws by (cases ws; auto simp: space_not_digit isSpace_def)+
  have step_ws: "takeWhile isSpace (ws @ w @ r) = ws \<and> dropWhile isSpace (ws @ w @ r) = w @ r"
    by (rule takeWhile_run [OF ws]) (simp add: hd_w)
  have step_fr: "match_fraction (fr @ ws @ w @ r) = (fr, ws @ w @ r)"
  proof (cases "fr = []")
    case True
    have "ws @ w @ r \<noteq> []" by (simp add: w0)
    then show ?thesis
      using hd_ws True by (auto simp: match_fraction_def split: list.splits)
  next
    case False
    with fr obtain fs where fs: "fr = CHR ''.'' # fs" "fs \<noteq> []" "list_all isDigit fs"
      by auto
    have "takeWhile isDigit (fs @ ws @ w @ r) = fs \<and> dropWhile isDigit (fs @ ws @ w @ r) = ws @ w @ r"
      by (rule takeWhile_run [OF fs(3)]) (simp add: hd_ws)
    then show ?thesis
      using fs by (simp add: match_fraction_def)
  qed
  have hd_fr: "\<not> isDigit (hd (fr @ ws @ w @ r))"
    using fr hd_ws by (auto simp: isDigit_def)
  have step_ds: "takeWhile isDigit (ds @ fr @ ws @ w @ r) = ds
      \<and> dropWhile isDigit (ds @ fr @ ws @ w @ r) = fr @ ws @ w @ r"
    by (rule takeWhile_run [OF ds(2)]) (simp add: hd_fr)
  show ?thesis
    using ds(1) step_ds step_fr step_ws up len
    by (simp add: match_budget_at_def m Let_def)
qed

lemma budget_match_parts:
  assumes "is_budget_match m"
  obtains ds fr ws w where "m = CHR ''$'' # ds @ fr @ ws @ w"
    and "ds \<noteq> []" and "list_all isDigit ds"
    and "fr = [] \<or> (\<exists>fs. fr = CHR ''.'' # fs \<and> fs \<noteq> [] \<and> list_all isDigit fs)"
    and "list_all isSpace ws"
    and "list_all2 same_letter w ''million''"
  using assms unfolding is_budget_match_def by blast

lemma toUpperChar_other:
  assumes "c \<notin> set ''abcdefghijklmnopqrstuvwxyz''"
  shows "toUpperChar c = c"
  using toUpperChar_cases [of c] assms by (metis set_zip_leftD)

lemma plain_digit:
  assumes "isDigit c"
  shows "c \<noteq> CHR ''$''" and "toUpperChar c \<noteq> CHR ''M''"
proof -
  from assms have c: "c \<in> set ''0123456789''"
    by (simp add: isDigit_def)
  then have "c \<notin> set ''abcdefghijklmnopqrstuvwxyz''"
    by auto
  then have "toUpperChar c = c"
    by (rule toUpperChar_other)
  with c show "c \<noteq> CHR ''$''" and "toUpperChar c \<noteq> CHR ''M''"
    by auto
qed

lemma plain_space:
  assumes "isSpace c"
  shows "c \<noteq> CHR ''$''" and "toUpperChar c \<noteq> CHR ''M''"
proof -
  from assms have c: "c \<in> set [CHR '' '', CHR 0x09, CHR 0x0A, CHR 0x0B, CHR 0x0C, CHR 0x0D]"
    by (simp add: isSpace_def)
  then have "c \<notin> set ''abcdefghijklmnopqrstuvwxyz''"
    by auto
  then have "toUpperChar c = c"
    by (rule toUpperChar_other)
  with c show "c \<noteq> CHR ''$''" and "toUpperChar c \<noteq> CHR ''M''"
    by auto
qed

lemma plain_dot: "toUpperChar CHR ''.'' \<noteq> CHR ''M''"
  by (simp add: toUpperChar_def)

lemma million_no_dollar:
  assumes "list_all2 same_letter w ''million''"
  shows "CHR ''$'' \<notin> set w"
proof
  assume "CHR ''$'' \<in> set w"
  then have "toUpperChar CHR ''$'' \<in> set (toUpperCase w)"
    by (simp add: toUpperCase_def)
  also have "toUpperCase w = ''MILLION''"
    using assms by (simp add: million_upper)
  finally show False
    by (simp add: toUpperChar_def)
qed

lemma budget_match_no_dollar_inside:
  assumes "is_budget_match m"
  shows "m \<noteq> [] \<and> hd m = CHR ''$'' \<and> CHR ''$'' \<notin> set (tl m)"
proof -
  from assms obtain ds fr ws w where m: "m = CHR ''$'' # ds @ fr @ ws @ w"
    and ds: "list_all isDigit ds"
    and fr: "fr = [] \<or> (\<exists>fs. fr = CHR ''.'' # fs \<and> fs \<noteq> [] \<and> list_all isDigit fs)"
    and ws: "list_all isSpace ws"
    and w: "list_all2 same_letter w ''million''"
    by (rule budget_match_parts)
  have nd: "\<not> isDigit CHR ''$''" and ns: "\<not> isSpace CHR ''$''"
    by (simp_all add: isDigit_def isSpace_def)
  have "CHR ''$'' \<notin> set ds"
    using ds nd unfolding list_all_iff by blast
  moreover have "CHR ''$'' \<notin> set fr"
  proof (cases "fr = []")
    case True
    then show ?thesis by simp
  next
    case False
    with fr obtain fs where "fr = CHR ''.'' # fs" "list_all isDigit fs"
      by blast
    moreover from this have "CHR ''$'' \<notin> set fs"
      using nd unfolding list_all_iff by blast
    ultimately show ?thesis by simp
  qed
  moreover have "CHR ''$'' \<notin> set ws"
    using ws ns unfolding list_all_iff by blast
  moreover have "CHR ''$'' \<notin> set w"
    using w by (rule million_no_dollar)
  ultimately show ?thesis
    by (simp add: m)
qed

lemma match_budget_at_not_dollar: "CHR ''$'' \<noteq> c \<Longrightarrow> match_budget_at (c # cs) = None"
  by (simp add: match_budget_at_def)

lemma occurrences_skip: "CHR ''$'' \<notin> set xs \<Longrightarrow> occurrences (xs @ ys) = occurrences ys"
  by (induction xs) (simp_all add: match_budget_at_not_dollar)

text \<open>
  Resuming the search after a match skips no match: no dollar sign lies inside a match.
\<close>

lemma match_all_occurrences: "match_all s = occurrences s"
proof (induction s rule: match_all.induct)
  case 1
  then show ?case by simp
next
  case (2 c cs)
  show ?case
  proof (cases "match_budget_at (c # cs)")
    case None
    with 2 show ?thesis by simp
  next
    case (Some p)
    obtain m rest where p: "p = (m, rest)" by (cases p)
    from Some p have at: "match_budget_at (c # cs) = Some (m, rest)" by simp
    from match_budget_at_sound [OF at] have split: "c # cs = m @ rest" and ok: "is_budget_match m"
      by simp_all
    from budget_match_no_dollar_inside [OF ok] split have "cs = tl m @ rest"
      and "CHR ''$'' \<notin> set (tl m)"
      by (cases m; simp)+
    then have "occurrences cs = occurrences rest"
      by (simp add: occurrences_skip)
    moreover have "match_all rest = occurrences rest"
      using "2.IH"(2) [OF at refl] .
    ultimately show ?thesis
      using at by simp
  qed
qed

lemma occurrences_are_matches: "m \<in> set (occurrences s) \<Longrightarrow> is_budget_match m"
proof (induction s)
  case Nil
  then show ?case by simp
next
  case (Cons c cs)
  show ?case
  proof (cases "match_budget_at (c # cs)")
    case None
    with Cons show ?thesis by simp
  next
    case (Some p)
    obtain m1 rest where p: "p = (m1, rest)" by (cases p)
    with Some have at: "match_budget_at (c # cs) = Some (m1, rest)" by simp
    from Cons.prems at have "m = m1 \<or> m \<in> set (occurrences cs)"
      by simp
    then show ?thesis
      using match_budget_at_sound [OF at] Cons.IH by blast
  qed
qed

lemma occurrences_append: "\<exists>front. occurrences (pre @ s) = front @ occurrences s"
proof (induction pre)
  case Nil
  show ?case by simp
next
  case (Cons c pre)
  then obtain front where f: "occurrences (pre @ s) = front @ occurrences s" ..
  show ?case
  proof (cases "match_budget_at (c # pre @ s)")
    case None
    with f have "occurrences ((c # pre) @ s) = front @ occurrences s"
      by simp
    then show ?thesis ..
  next
    case (Some p)
    with f have "occurrences ((c # pre) @ s) = (fst p # front) @ occurrences s"
      by (cases p) simp
    then show ?thesis ..
  qed
qed



lemma occurrences_located:
  "m \<in> set (occurrences s) \<Longrightarrow> \<exists>pre post. s = pre @ m @ post \<and> is_budget_match m"
proof (induction s)
  case Nil
  then show ?case by simp
next
  case (Cons c cs)
  have later: "\<exists>pre post. c # cs = pre @ m @ post \<and> is_budget_match m"
    if "m \<in> set (occurrences cs)"
  proof -
    from Cons.IH [OF that] obtain pre post where "cs = pre @ m @ post" "is_budget_match m"
      by blast
    then have "c # cs = (c # pre) @ m @ post \<and> is_budget_match m"
      by simp
    then show ?thesis by blast
  qed
  show ?case
  proof (cases "match_budget_at (c # cs)")
    case None
    with Cons.prems have "m \<in> set (occurrences cs)" by simp
    then show ?thesis by (rule later)
  next
    case (Some p)
    obtain m1 rest where p: "p = (m1, rest)" by (cases p)
    with Some have at: "match_budget_at (c # cs) = Some (m1, rest)" by simp
    from Cons.prems at have "m = m1 \<or> m \<in> set (occurrences cs)"
      by simp
    then show ?thesis
    proof
      assume "m = m1"
      with match_budget_at_sound [OF at] have "c # cs = [] @ m @ rest \<and> is_budget_match m"
        by simp
      then show ?thesis by blast
    next
      assume "m \<in> set (occurrences cs)"
      then show ?thesis by (rule later)
    qed
  qed
qed

lemma occurrences_empty_iff: "occurrences doc = [] \<longleftrightarrow> \<not> pattern_occurs doc"
proof
  assume none: "occurrences doc = []"
  show "\<not> pattern_occurs doc"
  proof
    assume "pattern_occurs doc"
    then obtain pre m post where t: "doc = pre @ m @ post" and ok: "is_budget_match m"
      unfolding pattern_occurs_def by blast
    from budget_match_no_dollar_inside [OF ok] obtain m' where "m = CHR ''$'' # m'"
      by (cases m) auto
    with match_budget_at_complete [OF ok, of post] have "occurrences (m @ post) \<noteq> []"
      by simp
    moreover obtain front where "occurrences (pre @ m @ post) = front @ occurrences (m @ post)"
      using occurrences_append [of pre "m @ post"] ..
    ultimately show False
      using none t by simp
  qed
next
  assume no: "\<not> pattern_occurs doc"
  show "occurrences doc = []"
  proof (rule ccontr)
    assume "occurrences doc \<noteq> []"
    then obtain m where "m \<in> set (occurrences doc)"
      by (cases "occurrences doc") auto
    from occurrences_located [OF this] no show False
      unfolding pattern_occurs_def by blast
  qed
qed

lemma strip_keep:
  "x \<noteq> CHR ''$'' \<Longrightarrow> toUpperChar x \<noteq> CHR ''M'' \<Longrightarrow>
     strip_budget_words (x # zs) = x # strip_budget_words zs"
  by (simp add: toUpperCase_def)

lemma strip_drop:
  "x \<noteq> CHR ''$'' \<Longrightarrow> toUpperCase (take 7 (x # zs)) = ''MILLION'' \<Longrightarrow>
     strip_budget_words (x # zs) = strip_budget_words (drop 6 zs)"
  by simp

lemma strip_plain:
  "\<forall>c\<in>set xs. c \<noteq> CHR ''$'' \<and> toUpperChar c \<noteq> CHR ''M'' \<Longrightarrow>
     strip_budget_words (xs @ ys) = xs @ strip_budget_words ys"
  by (induction xs) (simp_all add: strip_keep del: strip_budget_words.simps)

lemma strip_million:
  assumes "list_all2 same_letter w ''million''"
  shows "strip_budget_words w = []"
proof -
  from assms obtain w0 w' where w: "w = w0 # w'" and w0: "same_letter w0 CHR ''m''"
    and len: "length w' = 6"
    by (auto simp: list_all2_Cons2)
  have "toUpperCase w = ''MILLION''"
    using assms by (simp add: million_upper)
  moreover have "take 7 (w0 # w') = w"
    using len by (simp add: w)
  ultimately have up: "toUpperCase (take 7 (w0 # w')) = ''MILLION''"
    by simp
  have "strip_budget_words (w0 # w') = strip_budget_words (drop 6 w')"
    using same_letter_m(4) [OF w0] up by (rule strip_drop)
  then show ?thesis
    using len by (simp add: w)
qed

lemma strip_budget_match:
  assumes "list_all isDigit ds"
    and "fr = [] \<or> (\<exists>fs. fr = CHR ''.'' # fs \<and> fs \<noteq> [] \<and> list_all isDigit fs)"
    and "list_all isSpace ws"
    and "list_all2 same_letter w ''million''"
  shows "strip_budget_words (CHR ''$'' # ds @ fr @ ws @ w) = ds @ fr @ ws"
proof -
  have d: "\<forall>c\<in>set ds. c \<noteq> CHR ''$'' \<and> toUpperChar c \<noteq> CHR ''M''"
    using assms(1) plain_digit unfolding list_all_iff by blast
  have f: "\<forall>c\<in>set fr. c \<noteq> CHR ''$'' \<and> toUpperChar c \<noteq> CHR ''M''"
  proof (cases "fr = []")
    case True
    then show ?thesis by simp
  next
    case False
    with assms(2) obtain fs where fs: "fr = CHR ''.'' # fs" "list_all isDigit fs"
      by blast
    from fs(2) have "\<forall>c\<in>set fs. c \<noteq> CHR ''$'' \<and> toUpperChar c \<noteq> CHR ''M''"
      using plain_digit unfolding list_all_iff by blast
    then show ?thesis
      using plain_dot by (simp add: fs(1))
  qed
  have w: "\<forall>c\<in>set ws. c \<noteq> CHR ''$'' \<and> toUpperChar c \<noteq> CHR ''M''"
    using assms(3) plain_space unfolding list_all_iff by blast
  from d f w have "\<forall>c\<in>set (ds @ fr @ ws). c \<noteq> CHR ''$'' \<and> toUpperChar c \<noteq> CHR ''M''"
    by (simp add: ball_Un)
  then have "strip_budget_words ((ds @ fr @ ws) @ w) = (ds @ fr @ ws) @ strip_budget_words w"
    by (rule strip_plain)
  then have "strip_budget_words (ds @ fr @ ws @ w) = ds @ fr @ ws"
    by (simp add: strip_million [OF assms(4)])
  then show ?thesis
    by simp
qed

lemma read_number:
  assumes "list_all isDigit ds"
    and "fr = [] \<or> (\<exists>fs. fr = CHR ''.'' # fs \<and> fs \<noteq> [] \<and> list_all isDigit fs)"
    and "T = [] \<or> (\<not> isDigit (hd T) \<and> hd T \<noteq> CHR ''.'')"
  shows "decimal_value (takeWhile isDigit (ds @ fr @ T))
           (case dropWhile isDigit (ds @ fr @ T) of
              [] \<Rightarrow> []
            | c # r' \<Rightarrow> if c = CHR ''.'' then takeWhile isDigit r' else []) =
         decimal_value ds (tl fr)"
proof (cases "fr = []")
  case True
  have "takeWhile isDigit (ds @ T) = ds \<and> dropWhile isDigit (ds @ T) = T"
    using assms(3) by (intro takeWhile_run [OF assms(1)]) blast
  then have tw: "takeWhile isDigit (ds @ fr @ T) = ds"
    and dw: "dropWhile isDigit (ds @ fr @ T) = T"
    by (simp_all only: True append_Nil)
  have "(case T of [] \<Rightarrow> [] | c # r' \<Rightarrow> if c = CHR ''.'' then takeWhile isDigit r' else []) = []"
    using assms(3) by (cases T) auto
  then show ?thesis
    unfolding tw dw by (simp add: True)
next
  case False
  with assms(2) obtain fs where fs: "fr = CHR ''.'' # fs" "list_all isDigit fs"
    by blast
  have "\<not> isDigit CHR ''.''"
    by (simp add: isDigit_def)
  then have "takeWhile isDigit (ds @ CHR ''.'' # fs @ T) = ds
      \<and> dropWhile isDigit (ds @ CHR ''.'' # fs @ T) = CHR ''.'' # fs @ T"
    by (intro takeWhile_run [OF assms(1)]) simp
  then have tw: "takeWhile isDigit (ds @ fr @ T) = ds"
    and dw: "dropWhile isDigit (ds @ fr @ T) = CHR ''.'' # fs @ T"
    by (simp_all only: fs append_Cons)
  have "takeWhile isDigit (fs @ T) = fs \<and> dropWhile isDigit (fs @ T) = T"
    using assms(3) by (intro takeWhile_run [OF fs(2)]) blast
  then have tf: "takeWhile isDigit (fs @ T) = fs" ..
  show ?thesis
    unfolding tw dw by (simp only: list.case simp_thms if_True tf fs list.sel)
qed

text \<open>
  Removing the dollar sign and "Million" and parsing what is left gives the number written
  in the match.
\<close>

lemma amount_of_match:
  assumes "ds \<noteq> []" and "list_all isDigit ds"
    and "fr = [] \<or> (\<exists>fs. fr = CHR ''.'' # fs \<and> fs \<noteq> [] \<and> list_all isDigit fs)"
    and "list_all isSpace ws"
    and "list_all2 same_letter w ''million''"
  shows "written_amount (CHR ''$'' # ds @ fr @ ws @ w) = decimal_value ds (tl fr)"
    and "parseFloat (strip_budget_words (CHR ''$'' # ds @ fr @ ws @ w)) = decimal_value ds (tl fr)"
proof -
  from assms(5) obtain w0 w' where w: "w = w0 # w'" and w0: "same_letter w0 CHR ''m''"
    by (auto simp: list_all2_Cons2)
  have tail: "ws @ w = [] \<or> (\<not> isDigit (hd (ws @ w)) \<and> hd (ws @ w) \<noteq> CHR ''.'')"
    using assms(4) same_letter_m [OF w0]
    by (cases ws) (auto simp: w space_not_digit isSpace_def)
  have "written_amount (CHR ''$'' # ds @ fr @ ws @ w) =
      decimal_value (takeWhile isDigit (ds @ fr @ (ws @ w)))
        (case dropWhile isDigit (ds @ fr @ (ws @ w)) of
           [] \<Rightarrow> []
         | c # r' \<Rightarrow> if c = CHR ''.'' then takeWhile isDigit r' else [])"
    by (simp add: written_amount_def Let_def)
  also have "\<dots> = decimal_value ds (tl fr)"
    by (rule read_number [OF assms(2,3) tail])
  finally show "written_amount (CHR ''$'' # ds @ fr @ ws @ w) = decimal_value ds (tl fr)" .
  have tail': "ws = [] \<or> (\<not> isDigit (hd ws) \<and> hd ws \<noteq> CHR ''.'')"
    using assms(4) by (cases ws) (auto simp: space_not_digit isSpace_def)
  obtain d ds' where d: "ds = d # ds'" "isDigit d"
    using assms(1,2) by (cases ds) auto
  then have "dropWhile isSpace (ds @ fr @ ws) = ds @ fr @ ws"
    using space_not_digit [of d] by auto
  then have "parseFloat (ds @ fr @ ws) =
      decimal_value (takeWhile isDigit (ds @ fr @ ws))
        (case dropWhile isDigit (ds @ fr @ ws) of
           [] \<Rightarrow> []
         | c # r' \<Rightarrow> if c = CHR ''.'' then takeWhile isDigit r' else [])"
    by (simp add: parseFloat_def decimal_value_def Let_def)
  also have "\<dots> = decimal_value ds (tl fr)"
    by (rule read_number [OF assms(2,3) tail'])
  finally show "parseFloat (strip_budget_words (CHR ''$'' # ds @ fr @ ws @ w)) =
      decimal_value ds (tl fr)"
    by (simp only: strip_budget_match [OF assms(2-5)])
qed

lemma parse_written:
  assumes "is_budget_match m"
  shows "parseFloat (strip_budget_words m) = written_amount m"
proof -
  from assms obtain ds fr ws w where m: "m = CHR ''$'' # ds @ fr @ ws @ w"
    and parts: "ds \<noteq> []" "list_all isDigit ds"
      "fr = [] \<or> (\<exists>fs. fr = CHR ''.'' # fs \<and> fs \<noteq> [] \<and> list_all isDigit fs)"
      "list_all isSpace ws" "list_all2 same_letter w ''million''"
    by (rule budget_match_parts)
  show ?thesis
    unfolding m using amount_of_match [OF parts] by simp
qed

lemma estimate_budget_stated: "estimate_budget doc = stated_budget doc"
proof -
  have h: "map (\<lambda>m. parseFloat (strip_budget_words m) * 1000000) (occurrences doc) =
      map (\<lambda>m. written_amount m * 1000000) (occurrences doc)"
    by (rule map_cong [OF refl]) (simp add: parse_written occurrences_are_matches)
  have e: "sort xs = [] \<longleftrightarrow> xs = []" for xs :: "rat list"
    using length_sort [of "\<lambda>x. x" xs] by (metis length_0_conv)
  show ?thesis
    unfolding estimate_budget_def stated_budget_def Let_def match_all_occurrences h
    by (simp add: e)
qed



text \<open>
  Claim C6. For a text in which the pattern does not occur, the budget estimate is absent;
  in particular it is not the number zero.
\<close>

theorem no_pattern_no_budget:
  assumes "\<not> pattern_occurs doc"
  shows "pi_budget (extractProjectInfo doc a) = None
       \<and> pi_budget (extractProjectInfo doc a) \<noteq> Some 0"
proof -
  from assms have "occurrences doc = []"
    by (simp add: occurrences_empty_iff)
  then show ?thesis
    by (simp add: extractProjectInfo_def Let_def estimate_budget_stated stated_budget_def)
qed

theorem no_pattern_no_budget_witness:
  "\<not> pattern_occurs ''Past projects were worth $5 thousand and 3 Million euros''
   \<and> pi_budget (extractProjectInfo ''Past projects were worth $5 thousand and 3 Million euros''
        getMockAnalysisData) = None"
proof -
  have "occurrences ''Past projects were worth $5 thousand and 3 Million euros'' = []"
    by code_simp
  then have no: "\<not> pattern_occurs ''Past projects were worth $5 thousand and 3 Million euros''"
    using occurrences_empty_iff by blast
  from no_pattern_no_budget [OF no, of getMockAnalysisData] no show ?thesis
    by blast
qed

end
